theory Spec2Isabelle
  imports Main
begin

section \<open>Python values and errors\<close>

text \<open>
  Exceptions. \<open>SystemExit\<close> carries the argument of \<open>exit(...)\<close>, \<open>AttributeError\<close>
  the attribute name; \<open>OtherError\<close> is any other exception, named by its class.
\<close>

datatype py_error = SystemExit string | AttributeError string | OtherError string

text \<open>
  The Python values that occur in class dictionaries, keyword arguments and attributes.
  Objects with identity are references: \<open>ClassRef\<close> to a class object,
  \<open>ConfigPropertyRef\<close> to a \<open>ConfigProperty\<close> descriptor, \<open>Obj\<close> to any other object.
\<close>

datatype pyval =
    PyNone
  | Str string
  | ClassRef nat
  | ConfigPropertyRef nat
  | Function string
  | Obj nat

section \<open>utils.py\<close>

subsection \<open>format\_docstring\<close>

text \<open>
  Strings are lists of code points below 256. \<open>isspace\<close> is Python's notion of
  whitespace on that range, shared by the regular expression class \<open>\s\<close> and by
  \<open>str.strip()\<close>: tab, line feed, vertical tab, form feed, carriage return, the four
  separators 0x1C to 0x1F, the space, NEL (0x85) and the no-break space (0xA0).
\<close>

definition isspace :: "char \<Rightarrow> bool" where
  "isspace c = (c \<in> set [CHR 0x09, CHR 0x0A, CHR 0x0B, CHR 0x0C, CHR 0x0D,
                           CHR 0x1C, CHR 0x1D, CHR 0x1E, CHR 0x1F, CHR 0x20,
                           CHR 0x85, CHR 0xA0])"

text \<open>
  \<open>re.sub(r'\s+', ' ', s)\<close>: scanning from the left, every maximal run of whitespace is
  replaced by one space; all other characters are copied.
\<close>

function re_sub_ws :: "string \<Rightarrow> string" where
  "re_sub_ws [] = []"
| "re_sub_ws (c # cs) =
     (if isspace c then CHR '' '' # re_sub_ws (dropWhile isspace cs)
      else c # re_sub_ws cs)"
  by pat_completeness auto
termination
  by (relation "measure length") (auto simp: length_dropWhile_le less_Suc_eq_le)

text \<open>\<open>s.strip()\<close>: leading and trailing whitespace removed.\<close>

definition strip :: "string \<Rightarrow> string" where
  "strip s = rev (dropWhile isspace (rev (dropWhile isspace s)))"

text \<open>
  \<open>format_docstring(docstring)\<close>. The argument is \<open>None\<close> or a string; \<open>not docstring\<close>
  holds for \<open>None\<close> and for the empty string.
\<close>

definition format_docstring :: "string option \<Rightarrow> string" where
  "format_docstring docstring =
     (case docstring of
        None \<Rightarrow> []
      | Some s \<Rightarrow> if s = [] then [] else strip (re_sub_ws s))"

text \<open>No two neighbouring characters of a string are both whitespace.\<close>

fun no_double_ws :: "string \<Rightarrow> bool" where
  "no_double_ws (a # b # cs) = (\<not> (isspace a \<and> isspace b) \<and> no_double_ws (b # cs))"
| "no_double_ws _ = True"

subsection \<open>deep\_getattr\<close>

text \<open>
  A namespace maps attribute names to values: a class dictionary, or the attributes of a
  base class. \<open>clsdict.get(name, _missing)\<close> gives the stored value, or the sentinel
  \<open>_missing\<close> for a name that is absent (\<open>None\<close> here). \<open>getattr(base, name, _missing)\<close>
  does the same on a base, where the lookup may also raise something other than the
  \<open>AttributeError\<close> that \<open>getattr\<close> catches.
\<close>

type_synonym 'v namespace = "string \<Rightarrow> 'v option"

type_synonym 'v base = "string \<Rightarrow> py_error + 'v option"

text \<open>
  The function never asks whether a name is present. It tests \<open>value != _missing\<close>, which
  runs the value's own \<open>__ne__\<close> against the sentinel and takes the truth value of the
  answer. What that gives for a stored value or a default is the parameter \<open>ne_missing\<close>:
  \<open>Inr True\<close> for an object that compares by identity, \<open>Inr False\<close> for one whose
  \<open>__ne__\<close> says it is equal, \<open>Inl e\<close> when the comparison or its truth value raises. On
  the sentinel itself, which is what an absent name yields, the test is false.
\<close>

text \<open>The loop \<open>for base in bases\<close>, in the order given.\<close>

fun getattr_bases ::
    "('v \<Rightarrow> py_error + bool) \<Rightarrow> 'v base list \<Rightarrow> string \<Rightarrow> py_error + 'v option" where
  "getattr_bases ne_missing [] name = Inr None"
| "getattr_bases ne_missing (base # bases) name =
     (case base name of
        Inl e \<Rightarrow> Inl e
      | Inr None \<Rightarrow> getattr_bases ne_missing bases name
      | Inr (Some v) \<Rightarrow>
          (case ne_missing v of
             Inl e \<Rightarrow> Inl e
           | Inr b \<Rightarrow> if b then Inr (Some v) else getattr_bases ne_missing bases name))"

text \<open>
  \<open>deep_getattr(clsdict, bases, name, default=_missing)\<close>. An omitted \<open>default\<close> is the
  sentinel (\<open>None\<close> here); a supplied one is tested like every other value.
\<close>

definition deep_getattr ::
    "('v \<Rightarrow> py_error + bool) \<Rightarrow> 'v namespace \<Rightarrow> 'v base list \<Rightarrow> string \<Rightarrow> 'v option
       \<Rightarrow> py_error + 'v" where
  "deep_getattr ne_missing clsdict bases name default' =
     (let after_clsdict =
        (case getattr_bases ne_missing bases name of
           Inl e \<Rightarrow> Inl e
         | Inr (Some v) \<Rightarrow> Inr v
         | Inr None \<Rightarrow>
             (case default' of
                None \<Rightarrow> Inl (AttributeError name)
              | Some d \<Rightarrow>
                  (case ne_missing d of
                     Inl e \<Rightarrow> Inl e
                   | Inr b \<Rightarrow> if b then Inr d else Inl (AttributeError name))))
      in case clsdict name of
           None \<Rightarrow> after_clsdict
         | Some v \<Rightarrow>
             (case ne_missing v of
                Inl e \<Rightarrow> Inl e
              | Inr b \<Rightarrow> if b then Inr v else after_clsdict))"

text \<open>
  Two kinds of value to run the function on: an ordinary object, which is unequal to the
  sentinel, and \<open>unittest.mock.ANY\<close>, whose \<open>__ne__\<close> returns \<open>False\<close> for every operand.
\<close>

datatype sample_value = Plain nat | MockANY

fun sample_ne_missing :: "sample_value \<Rightarrow> py_error + bool" where
  "sample_ne_missing (Plain n) = Inr True"
| "sample_ne_missing MockANY = Inr False"

subsection \<open>ConfigProperty and ConfigPropertyMeta\<close>

text \<open>
  A \<open>ConfigProperty\<close> object has one field, \<open>key\<close>: \<open>None\<close> or a string. The objects
  live in a store indexed by reference, because the metaclass mutates them in place and a
  class dictionary may bind one object under several names.
\<close>

record ConfigProperty =
  key :: "string option"

type_synonym descriptors = "nat \<Rightarrow> ConfigProperty"

text \<open>The store in which every descriptor was constructed as \<open>ConfigProperty()\<close>.\<close>

definition unset_descriptors :: descriptors where
  "unset_descriptors = (\<lambda>r. \<lparr>key = None\<rparr>)"

text \<open>Truth value of a key: \<open>None\<close> and the empty string are false.\<close>

fun key_truthy :: "string option \<Rightarrow> bool" where
  "key_truthy None = False"
| "key_truthy (Some s) = (s \<noteq> [])"

text \<open>\<open>s.rstrip('_')\<close>: all trailing underscores removed.\<close>

definition rstrip_underscores :: "string \<Rightarrow> string" where
  "rstrip_underscores s = rev (dropWhile (\<lambda>c. c = CHR ''_'') (rev s))"

text \<open>
  \<open>str.upper\<close> is Python's own conversion, over all of Unicode; it is not written out
  here but taken as the parameter \<open>str_upper\<close>. In this part a string stands for a
  Python \<open>str\<close> through its UTF-8 encoding, so that every \<open>str\<close> and every result of
  \<open>str.upper\<close> is a string: the underscore is one byte that occurs in the encoding of no
  other character, so stripping trailing underscores and joining with an underscore act
  on the encodings as they do on the text.

  The loop of \<open>ConfigPropertyMeta.__init__\<close> over \<open>clsdict.items()\<close>, in dictionary order.
\<close>

fun inject_keys ::
    "(string \<Rightarrow> string) \<Rightarrow> string \<Rightarrow> (string \<times> pyval) list \<Rightarrow> descriptors \<Rightarrow> descriptors" where
  "inject_keys str_upper config_prefix [] h = h"
| "inject_keys str_upper config_prefix ((property_name, descriptor) # items) h =
     inject_keys str_upper config_prefix items
       (case descriptor of
          ConfigPropertyRef r \<Rightarrow>
            if \<not> key_truthy (key (h r))
            then h(r := (h r)\<lparr>key := Some (str_upper (config_prefix @ ''_'' @ property_name))\<rparr>)
            else h
        | _ \<Rightarrow> h)"

text \<open>
  \<open>ConfigPropertyMeta.__init__(cls, class_name, bases, clsdict)\<close>. \<open>bases\<close> is only handed
  to \<open>type.__init__\<close>, which does nothing with it. \<open>.rstrip\<close> exists on strings only: a
  \<open>__config_prefix__\<close> bound to anything else raises \<open>AttributeError\<close>.
\<close>

definition ConfigPropertyMeta_init ::
    "(string \<Rightarrow> string) \<Rightarrow> string \<Rightarrow> (string \<times> pyval) list \<Rightarrow> descriptors
       \<Rightarrow> py_error + descriptors" where
  "ConfigPropertyMeta_init str_upper class_name clsdict h =
     (case (case map_of clsdict ''__config_prefix__'' of
              None \<Rightarrow> Str class_name
            | Some v \<Rightarrow> v) of
        Str p \<Rightarrow> Inr (inject_keys str_upper (rstrip_underscores p) clsdict h)
      | _ \<Rightarrow> Inl (AttributeError ''rstrip''))"

text \<open>The first name, in dictionary order, that a class dictionary binds to descriptor \<open>r\<close>.\<close>

fun first_name :: "nat \<Rightarrow> (string \<times> pyval) list \<Rightarrow> string option" where
  "first_name r [] = None"
| "first_name r ((property_name, descriptor) # items) =
     (if descriptor = ConfigPropertyRef r then Some property_name else first_name r items)"

text \<open>
  What \<open>str.upper\<close> does to a string of ASCII characters: the letters \<open>a\<close> to \<open>z\<close> become
  \<open>A\<close> to \<open>Z\<close>. It is used to run the metaclass on ASCII names only.
\<close>

definition ascii_upper_char :: "char \<Rightarrow> char" where
  "ascii_upper_char c =
     (case map_of (zip ''abcdefghijklmnopqrstuvwxyz'' ''ABCDEFGHIJKLMNOPQRSTUVWXYZ'') c of
        None \<Rightarrow> c
      | Some u \<Rightarrow> u)"

definition ascii_upper :: "string \<Rightarrow> string" where
  "ascii_upper s = map ascii_upper_char s"

subsection \<open>OptionalMetaclass\<close>

text \<open>
  A class object is recorded by what \<open>type.__new__(mcs, name, bases, clsdict)\<close> was given
  to build it. The state of the metaclass is its class attribute \<open>__optional_class\<close>
  (\<open>None\<close> until the first class is created) together with the class objects created so
  far; a class is referred to by its index among them.
\<close>

record class_obj =
  cls_name :: string
  cls_bases :: "pyval list"
  cls_dict :: "(string \<times> pyval) list"

record meta_state =
  optional_class :: "nat option"
  classes :: "class_obj list"

text \<open>The value of \<open>self.__optional_class\<close>: the stand-in class, or \<open>None\<close>.\<close>

definition read_optional_class :: "meta_state \<Rightarrow> pyval" where
  "read_optional_class s =
     (case optional_class s of None \<Rightarrow> PyNone | Some c \<Rightarrow> ClassRef c)"

text \<open>\<open>OptionalMetaclass.__new__(mcs, name, bases, clsdict)\<close>.\<close>

definition OptionalMetaclass_new ::
    "string \<Rightarrow> pyval list \<Rightarrow> (string \<times> pyval) list \<Rightarrow> meta_state \<Rightarrow> pyval \<times> meta_state" where
  "OptionalMetaclass_new name bases clsdict s =
     (let s' = (if optional_class s = None
                then \<lparr>optional_class = Some (length (classes s)),
                      classes = classes s @
                        [\<lparr>cls_name = name, cls_bases = bases, cls_dict = clsdict\<rparr>]\<rparr>
                else s)
      in (read_optional_class s', s'))"

text \<open>
  The methods \<open>__getattr__\<close>, \<open>__setattr__\<close>, \<open>__call__\<close>, \<open>__getitem__\<close> and
  \<open>__setitem__\<close>; \<open>self\<close> is the class they are invoked on. The two setters are \<open>pass\<close>.
\<close>

definition OptionalMetaclass_getattr :: "nat \<Rightarrow> string \<Rightarrow> meta_state \<Rightarrow> pyval \<times> meta_state" where
  "OptionalMetaclass_getattr self item s = (read_optional_class s, s)"

definition OptionalMetaclass_setattr ::
    "nat \<Rightarrow> string \<Rightarrow> pyval \<Rightarrow> meta_state \<Rightarrow> pyval \<times> meta_state" where
  "OptionalMetaclass_setattr self k v s = (PyNone, s)"

definition OptionalMetaclass_call ::
    "nat \<Rightarrow> pyval list \<Rightarrow> (string \<times> pyval) list \<Rightarrow> meta_state \<Rightarrow> pyval \<times> meta_state" where
  "OptionalMetaclass_call self args kwargs s = (read_optional_class s, s)"

definition OptionalMetaclass_getitem :: "nat \<Rightarrow> pyval \<Rightarrow> meta_state \<Rightarrow> pyval \<times> meta_state" where
  "OptionalMetaclass_getitem self item s = (read_optional_class s, s)"

definition OptionalMetaclass_setitem ::
    "nat \<Rightarrow> pyval \<Rightarrow> pyval \<Rightarrow> meta_state \<Rightarrow> pyval \<times> meta_state" where
  "OptionalMetaclass_setitem self k v s = (PyNone, s)"

text \<open>
  Attribute access \<open>self.item\<close> on a class of this metaclass. The metaclass defines
  \<open>__getattr__\<close> and not \<open>__getattribute__\<close>, so Python first runs its ordinary lookup
  (the dictionaries of the class and of its bases, and what \<open>object\<close>, \<open>type\<close> and the
  metaclass supply) and calls \<open>__getattr__\<close> only when that lookup has ended in
  \<open>AttributeError\<close>. The ordinary lookup is Python's and is not written out: its outcome
  for this access is the argument \<open>found\<close>, the value it found or \<open>None\<close> when it found
  none.
\<close>

definition class_attribute ::
    "pyval option \<Rightarrow> nat \<Rightarrow> string \<Rightarrow> meta_state \<Rightarrow> pyval \<times> meta_state" where
  "class_attribute found self item s =
     (case found of
        Some v \<Rightarrow> (v, s)
      | None \<Rightarrow> OptionalMetaclass_getattr self item s)"

text \<open>
  The namespace that the class statement of \<open>OptionalClass\<close> in \<open>utils.py\<close> hands to the
  metaclass: the module and qualified name every class body gets, the docstring and
  \<open>__init__\<close>.
\<close>

definition OptionalClass_clsdict :: "(string \<times> pyval) list" where
  "OptionalClass_clsdict =
     [(''__module__'', Str ''flask_unchained.utils''),
      (''__qualname__'', Str ''OptionalClass''),
      (''__doc__'', Str (
        ''\<newline>''
        @ ''    Use this as a generic base class if you have classes that depend on an\<newline>''
        @ ''    optional package. For example, if you want to define a serializer but not\<newline>''
        @ ''    depend on flask_api_bundle, you should do something like this::\<newline>''
        @ ''\<newline>''
        @ ''        try:\<newline>''
        @ ''            from flask_api_bundle import ma\<newline>''
        @ ''        except ImportError:\<newline>''
        @ ''            from flask_unchained import OptionalClass as ma\<newline>''
        @ ''\<newline>''
        @ ''        class MySerializer(ma.ModelSerializer):\<newline>''
        @ ''            class Meta:\<newline>''
        @ ''                model = 'MyModel'\<newline>''
        @ ''    '')),
      (''__init__'', Function ''OptionalClass.__init__'')]"

text \<open>The state right after \<open>utils.py\<close> is imported: \<open>OptionalClass\<close> is the first class.\<close>

definition utils_imported :: meta_state where
  "utils_imported =
     snd (OptionalMetaclass_new ''OptionalClass'' [] OptionalClass_clsdict
            \<lparr>optional_class = None, classes = []\<rparr>)"

section \<open>bundles/sqlalchemy/commands.py\<close>

text \<open>
  The commands talk to three libraries: \<open>click.echo\<close>, the database extension
  (\<open>db_ext.drop_all()\<close>, \<open>db_ext.engine.execute(sql)\<close>) and the migration tool
  (\<open>migrate.get_config(directory)\<close>, \<open>alembic.upgrade(config, revision)\<close>). Every call
  is recorded, in order, as an event; the calls that act on the database also transform
  it, by functions the libraries supply. The commands catch nothing, and a library call
  that raises is not part of this model: the only exception is the one the commands
  raise themselves.
\<close>

datatype event =
    Echo string
  | DropAll
  | Execute string
  | GetConfig "string option"
  | Upgrade string

record 'db database_api =
  drop_all_tables :: "'db \<Rightarrow> 'db"
  engine_execute :: "string \<Rightarrow> 'db \<Rightarrow> 'db"
  alembic_upgrade :: "string \<Rightarrow> 'db \<Rightarrow> 'db"

record 'db world =
  database :: 'db
  events :: "event list"

definition click_echo :: "string \<Rightarrow> 'db world \<Rightarrow> 'db world" where
  "click_echo msg w = w\<lparr>events := events w @ [Echo msg]\<rparr>"

definition db_ext_drop_all :: "'db database_api \<Rightarrow> 'db world \<Rightarrow> 'db world" where
  "db_ext_drop_all api w =
     w\<lparr>database := drop_all_tables api (database w), events := events w @ [DropAll]\<rparr>"

definition db_ext_engine_execute :: "'db database_api \<Rightarrow> string \<Rightarrow> 'db world \<Rightarrow> 'db world" where
  "db_ext_engine_execute api sql w =
     w\<lparr>database := engine_execute api sql (database w), events := events w @ [Execute sql]\<rparr>"

definition migrate_get_config :: "string option \<Rightarrow> 'db world \<Rightarrow> 'db world" where
  "migrate_get_config directory w = w\<lparr>events := events w @ [GetConfig directory]\<rparr>"

definition alembic_upgrade_to :: "'db database_api \<Rightarrow> string \<Rightarrow> 'db world \<Rightarrow> 'db world" where
  "alembic_upgrade_to api revision w =
     w\<lparr>database := alembic_upgrade api revision (database w),
       events := events w @ [Upgrade revision]\<rparr>"

text \<open>\<open>drop_all()\<close>.\<close>

definition drop_all :: "'db database_api \<Rightarrow> 'db world \<Rightarrow> 'db world" where
  "drop_all api w =
     db_ext_engine_execute api ''DROP TABLE IF EXISTS alembic_version;''
       (db_ext_drop_all api w)"

text \<open>
  \<open>drop_command(drop)\<close> and \<open>reset_command(reset)\<close>; the argument is the value of the
  confirmation flag. \<open>exit('Cancelled.')\<close> raises \<open>SystemExit\<close>.
\<close>

definition drop_command ::
    "'db database_api \<Rightarrow> bool \<Rightarrow> 'db world \<Rightarrow> (py_error + unit) \<times> 'db world" where
  "drop_command api drop' w =
     (if \<not> drop' then (Inl (SystemExit ''Cancelled.''), w)
      else (Inr (),
            click_echo ''Done.''
              (drop_all api
                (click_echo ''Dropping DB tables.'' w))))"

definition reset_command ::
    "'db database_api \<Rightarrow> bool \<Rightarrow> 'db world \<Rightarrow> (py_error + unit) \<times> 'db world" where
  "reset_command api reset w =
     (if \<not> reset then (Inl (SystemExit ''Cancelled.''), w)
      else (Inr (),
            click_echo ''Done.''
              (alembic_upgrade_to api ''head''
                (migrate_get_config None
                  (click_echo ''Running DB migrations.''
                    (drop_all api
                      (click_echo ''Dropping DB tables.'' w)))))))"

text \<open>The events that act on the database.\<close>

fun database_step :: "event \<Rightarrow> bool" where
  "database_step DropAll = True"
| "database_step (Execute sql) = True"
| "database_step (Upgrade revision) = True"
| "database_step (Echo msg) = False"
| "database_step (GetConfig directory) = False"

section \<open>bundles/sqlalchemy/services/model\_manager.py\<close>

text \<open>
  Model instances are objects with identity: references into a heap of attribute
  dictionaries. The session is the ORM's own state.
\<close>

type_synonym kwargs = "(string \<times> pyval) list"

record 's orm_world =
  heap :: "nat \<Rightarrow> string \<Rightarrow> pyval option"
  session :: 's

text \<open>
  What the manager calls and does not define: the query object of a model and its
  methods (\<open>BaseQuery\<close>), the model's constructor, the truth value of an instance, and
  \<open>SessionManager.save(instance, commit)\<close> of the superclass. They are parameters:
  state transformers on the heap and the session. The manager catches nothing, and a
  call of theirs that raises is not part of this model.

  The builtin \<open>setattr(instance, attr, value)\<close> is a parameter too. It hands the
  assignment to the class of the instance: to a \<open>__setattr__\<close> method, to a property
  setter or another data descriptor, to the ORM's instrumentation of a mapped column.
  So it may store the value under that name, or do something else to this or to other
  objects, or raise; whatever it has done by then stays done.
\<close>

record ('m, 'q, 's) orm =
  model_query :: "'m \<Rightarrow> 'q"
  query_get :: "'q \<Rightarrow> pyval \<Rightarrow> 's orm_world \<Rightarrow> nat option \<times> 's orm_world"
  query_get_by :: "'q \<Rightarrow> kwargs \<Rightarrow> 's orm_world \<Rightarrow> nat option \<times> 's orm_world"
  query_filter_by :: "'q \<Rightarrow> kwargs \<Rightarrow> 'q"
  query_all :: "'q \<Rightarrow> 's orm_world \<Rightarrow> nat list \<times> 's orm_world"
  model_new :: "'m \<Rightarrow> kwargs \<Rightarrow> 's orm_world \<Rightarrow> nat \<times> 's orm_world"
  instance_truthy :: "nat \<Rightarrow> 's orm_world \<Rightarrow> bool"
  save :: "nat \<Rightarrow> bool \<Rightarrow> 's orm_world \<Rightarrow> 's orm_world"
  setattr :: "nat \<Rightarrow> string \<Rightarrow> pyval \<Rightarrow> 's orm_world \<Rightarrow> (py_error + unit) \<times> 's orm_world"

text \<open>
  What \<open>setattr\<close> does for a plain attribute (\<open>object.__setattr__\<close> with no descriptor
  in the way): the value is bound to the name in the instance's own dictionary, and
  nothing else changes.
\<close>

definition object_setattr :: "nat \<Rightarrow> string \<Rightarrow> pyval \<Rightarrow> 's orm_world \<Rightarrow> 's orm_world" where
  "object_setattr instance attr v w =
     w\<lparr>heap := (heap w)(instance := (heap w instance)(attr \<mapsto> v))\<rparr>"

record 'm ModelManager =
  model :: 'm

definition ModelManager_q :: "('m, 'q, 's) orm \<Rightarrow> 'm ModelManager \<Rightarrow> 'q" where
  "ModelManager_q orm self = model_query orm (model self)"

definition ModelManager_query :: "('m, 'q, 's) orm \<Rightarrow> 'm ModelManager \<Rightarrow> 'q" where
  "ModelManager_query orm self = model_query orm (model self)"

definition ModelManager_create ::
    "('m, 'q, 's) orm \<Rightarrow> 'm ModelManager \<Rightarrow> bool \<Rightarrow> kwargs \<Rightarrow> 's orm_world
       \<Rightarrow> nat \<times> 's orm_world" where
  "ModelManager_create orm self commit kwargs w =
     (let (instance, w1) = model_new orm (model self) kwargs w
      in (instance, save orm instance commit w1))"



definition ModelManager_get ::
    "('m, 'q, 's) orm \<Rightarrow> 'm ModelManager \<Rightarrow> pyval \<Rightarrow> 's orm_world
       \<Rightarrow> nat option \<times> 's orm_world" where
  "ModelManager_get orm self ident w = query_get orm (ModelManager_q orm self) ident w"

definition ModelManager_get_by ::
    "('m, 'q, 's) orm \<Rightarrow> 'm ModelManager \<Rightarrow> kwargs \<Rightarrow> 's orm_world
       \<Rightarrow> nat option \<times> 's orm_world" where
  "ModelManager_get_by orm self kwargs w = query_get_by orm (ModelManager_q orm self) kwargs w"

text \<open>
  \<open>get_or_create\<close>: \<open>not instance\<close> holds when \<open>get_by\<close> returned \<open>None\<close> and when it
  returned an instance whose truth value is false.
\<close>

definition ModelManager_get_or_create ::
    "('m, 'q, 's) orm \<Rightarrow> 'm ModelManager \<Rightarrow> bool \<Rightarrow> kwargs \<Rightarrow> 's orm_world
       \<Rightarrow> (nat \<times> bool) \<times> 's orm_world" where
  "ModelManager_get_or_create orm self commit kwargs w =
     (let (found, w1) = ModelManager_get_by orm self kwargs w
      in if (case found of None \<Rightarrow> True | Some instance \<Rightarrow> \<not> instance_truthy orm instance w1)
         then (let (created, w2) = ModelManager_create orm self commit kwargs w1
               in ((created, True), w2))
         else ((the found, False), w1))"

definition ModelManager_find_all ::
    "('m, 'q, 's) orm \<Rightarrow> 'm ModelManager \<Rightarrow> 's orm_world \<Rightarrow> nat list \<times> 's orm_world" where
  "ModelManager_find_all orm self w = query_all orm (ModelManager_q orm self) w"

definition ModelManager_find_by ::
    "('m, 'q, 's) orm \<Rightarrow> 'm ModelManager \<Rightarrow> kwargs \<Rightarrow> 's orm_world
       \<Rightarrow> nat list \<times> 's orm_world" where
  "ModelManager_find_by orm self kwargs w =
     query_all orm (query_filter_by orm (ModelManager_q orm self) kwargs) w"

section \<open>hooks\<close>





section \<open>Concrete data for the worked examples\<close>

text \<open>
  A small stand-in for the ORM on which the theorems about \<open>ModelManager\<close> are run: the
  session is the list of saved instances, every lookup by keyword finds instance
  \<open>0\<close>, whose truth value is false, the constructor returns instance \<open>1\<close>, and every
  attribute is a plain one.
\<close>

definition demo_orm :: "(string, string, nat list) orm" where
  "demo_orm =
     \<lparr>model_query = (\<lambda>m. m),
      query_get = (\<lambda>q ident w. (None, w)),
      query_get_by = (\<lambda>q kw w. (Some 0, w)),
      query_filter_by = (\<lambda>q kw. q),
      query_all = (\<lambda>q w. (session w, w)),
      model_new = (\<lambda>m kw w. (1, w\<lparr>heap := (heap w)(1 := map_of kw)\<rparr>)),
      instance_truthy = (\<lambda>i w. i \<noteq> 0),
      save = (\<lambda>i commit w. w\<lparr>session := session w @ [i]\<rparr>),
      setattr = (\<lambda>i attr v w. (Inr (), object_setattr i attr v w))\<rparr>"

definition demo_world :: "nat list orm_world" where
  "demo_world = \<lparr>heap = (\<lambda>i. Map.empty), session = []\<rparr>"


text \<open>A base class, for \<open>deep_getattr\<close>, whose attribute lookup raises nothing else.\<close>

definition as_base :: "'v namespace \<Rightarrow> 'v base" where
  "as_base attributes name = Inr (attributes name)"


section \<open>Properties of format\_docstring\<close>

lemma re_sub_ws_only_space:
  "c \<in> set (re_sub_ws s) \<Longrightarrow> isspace c \<Longrightarrow> c = CHR '' ''"
proof (induction s rule: re_sub_ws.induct)
  case 1
  then show ?case by simp
next
  case (2 d ds)
  then show ?case by (auto split: if_splits)
qed

lemma re_sub_ws_no_double: "no_double_ws (re_sub_ws s)"
proof (induction s rule: re_sub_ws.induct)
  case 1
  then show ?case by simp
next
  case (2 c cs)
  show ?case
  proof (cases "isspace c")
    case True
    let ?r = "dropWhile isspace cs"
    show ?thesis
    proof (cases ?r)
      case Nil
      with True show ?thesis by (simp del: dropWhile_eq_Nil_conv)
    next
      case (Cons x xs)
      then have nx: "\<not> isspace x"
        using hd_dropWhile [of isspace cs] by auto
      from 2(1) [OF True] have ih: "no_double_ws (re_sub_ws ?r)" .
      with True Cons nx show ?thesis by simp
    qed
  next
    case False
    from 2(2) [OF False] have ih: "no_double_ws (re_sub_ws cs)" .
    with False show ?thesis by (cases "re_sub_ws cs") auto
  qed
qed

lemma no_double_ws_idx:
  "no_double_ws s \<Longrightarrow> Suc i < length s \<Longrightarrow> \<not> (isspace (s ! i) \<and> isspace (s ! Suc i))"
proof (induction s arbitrary: i rule: no_double_ws.induct)
  case (1 a b cs)
  then show ?case by (cases i) auto
qed auto

lemma no_double_ws_tl: "no_double_ws (a # s) \<Longrightarrow> no_double_ws s"
  by (cases s) auto

lemma no_double_ws_dropWhile: "no_double_ws s \<Longrightarrow> no_double_ws (dropWhile P s)"
  by (induction s) (auto dest: no_double_ws_tl)

lemma no_double_ws_rev: "no_double_ws (rev s) = no_double_ws s"
proof (induction s rule: no_double_ws.induct)
  case (1 a b cs)
  have "no_double_ws (xs @ [b, a]) =
          (no_double_ws (xs @ [b]) \<and> \<not> (isspace a \<and> isspace b))" for xs
    by (induction xs rule: no_double_ws.induct) auto
  from this [of "rev cs"] 1 show ?case by auto
qed auto

lemma no_double_ws_strip: "no_double_ws s \<Longrightarrow> no_double_ws (strip s)"
  by (simp add: strip_def no_double_ws_rev no_double_ws_dropWhile)

lemma set_strip: "set (strip s) \<subseteq> set s"
proof
  fix c assume "c \<in> set (strip s)"
  then have "c \<in> set (dropWhile isspace (rev (dropWhile isspace s)))"
    by (simp add: strip_def)
  then have "c \<in> set (rev (dropWhile isspace s))" by (rule set_dropWhileD)
  then have "c \<in> set (dropWhile isspace s)" by simp
  then show "c \<in> set s" by (rule set_dropWhileD)
qed

lemma strip_hd: "strip s \<noteq> [] \<Longrightarrow> \<not> isspace (hd (strip s))"
proof -
  assume ne: "strip s \<noteq> []"
  let ?d = "dropWhile isspace s"
  from ne have dne: "?d \<noteq> []"
    by (auto simp: strip_def simp del: dropWhile_eq_Nil_conv)
  then have h: "\<not> isspace (hd ?d)" by (simp add: hd_dropWhile)
  obtain x xs where d: "?d = x # xs" using dne by (cases ?d) auto
  with h have nx: "\<not> isspace x" by simp
  have "\<exists>ys. rev (dropWhile isspace (rev (x # xs))) = x # ys"
  proof (induction xs rule: rev_induct)
    case Nil
    with nx show ?case by simp
  next
    case (snoc y ys)
    then show ?case by (cases "isspace y") auto
  qed
  with d nx show ?thesis by (auto simp: strip_def)
qed

lemma strip_last: "strip s \<noteq> [] \<Longrightarrow> \<not> isspace (last (strip s))"
proof -
  assume ne: "strip s \<noteq> []"
  let ?r = "dropWhile isspace (rev (dropWhile isspace s))"
  from ne have rne: "?r \<noteq> []" by (simp add: strip_def)
  then have "\<not> isspace (hd ?r)" by (simp add: hd_dropWhile)
  moreover have "last (strip s) = hd ?r" using rne by (simp add: strip_def last_rev)
  ultimately show ?thesis by simp
qed

lemma re_sub_ws_fixed:
  "no_double_ws s \<Longrightarrow> \<forall>c\<in>set s. isspace c \<longrightarrow> c = CHR '' '' \<Longrightarrow> re_sub_ws s = s"
proof (induction s rule: re_sub_ws.induct)
  case 1
  then show ?case by simp
next
  case (2 c cs)
  from 2(3) have tl: "no_double_ws cs" by (rule no_double_ws_tl)
  show ?case
  proof (cases "isspace c")
    case True
    with 2(4) have c: "c = CHR '' ''" by simp
    have dw: "dropWhile isspace cs = cs"
    proof (cases cs)
      case Nil
      then show ?thesis by simp
    next
      case (Cons x xs)
      with 2(3) True have "\<not> isspace x" by simp
      with Cons show ?thesis by simp
    qed
    with 2(1) [OF True] 2(4) tl have "re_sub_ws cs = cs" by simp
    with True c dw show ?thesis by simp
  next
    case False
    with 2(2) [OF False] 2(4) tl have "re_sub_ws cs = cs" by simp
    with False show ?thesis by simp
  qed
qed

lemma strip_fixed:
  "s \<noteq> [] \<Longrightarrow> \<not> isspace (hd s) \<Longrightarrow> \<not> isspace (last s) \<Longrightarrow> strip s = s"
proof -
  assume a: "s \<noteq> []" "\<not> isspace (hd s)" "\<not> isspace (last s)"
  then have "dropWhile isspace s = s" by (cases s) auto
  moreover from a have "dropWhile isspace (rev s) = rev s"
    by (cases "rev s") (auto simp: hd_rev)
  ultimately show ?thesis by (simp add: strip_def)
qed

lemma format_docstring_fixed:
  "format_docstring (Some (format_docstring d)) = format_docstring d"
proof (cases "format_docstring d = []")
  case True
  then show ?thesis by (simp add: format_docstring_def)
next
  case False
  then obtain s where d: "d = Some s" and s: "s \<noteq> []"
    by (auto simp: format_docstring_def split: option.splits if_splits)
  let ?r = "strip (re_sub_ws s)"
  from d s have r: "format_docstring d = ?r" by (simp add: format_docstring_def)
  with False have rne: "?r \<noteq> []" by simp
  have nd: "no_double_ws ?r" by (simp add: no_double_ws_strip re_sub_ws_no_double)
  have sp: "\<forall>c\<in>set ?r. isspace c \<longrightarrow> c = CHR '' ''"
    using set_strip [of "re_sub_ws s"] re_sub_ws_only_space [of _ s] by blast
  from nd sp have "re_sub_ws ?r = ?r" by (rule re_sub_ws_fixed)
  moreover have "strip ?r = ?r"
    using rne strip_hd [OF rne] strip_last [OF rne] by (rule strip_fixed)
  ultimately show ?thesis using r rne by (simp add: format_docstring_def)
qed

lemma format_docstring_no_double: "no_double_ws (format_docstring d)"
  by (simp add: format_docstring_def no_double_ws_strip re_sub_ws_no_double
      split: option.splits)

lemma format_docstring_ends:
  "format_docstring d \<noteq> [] \<Longrightarrow>
     \<not> isspace (hd (format_docstring d)) \<and> \<not> isspace (last (format_docstring d))"
  by (auto simp: format_docstring_def strip_hd strip_last split: option.splits if_splits)

text \<open>
  C10. \<open>format_docstring\<close> is idempotent; its result has no two consecutive whitespace
  characters and neither starts nor ends with whitespace; and for \<open>None\<close> and for the
  empty string the result is the empty string.
\<close>

theorem format_docstring_idempotent_normal:
  "format_docstring (Some (format_docstring d)) = format_docstring d
   \<and> (\<forall>i. Suc i < length (format_docstring d) \<longrightarrow>
         \<not> (isspace (format_docstring d ! i) \<and> isspace (format_docstring d ! Suc i)))
   \<and> (format_docstring d \<noteq> [] \<longrightarrow>
         \<not> isspace (hd (format_docstring d)) \<and> \<not> isspace (last (format_docstring d)))
   \<and> format_docstring None = []
   \<and> format_docstring (Some []) = []"
proof -
  have "\<forall>i. Suc i < length (format_docstring d) \<longrightarrow>
         \<not> (isspace (format_docstring d ! i) \<and> isspace (format_docstring d ! Suc i))"
    using no_double_ws_idx [OF format_docstring_no_double] by blast
  moreover have "format_docstring None = []" "format_docstring (Some []) = []"
    by (simp_all add: format_docstring_def)
  ultimately show ?thesis
    using format_docstring_fixed [of d] format_docstring_ends [of d] by blast
qed

theorem format_docstring_idempotent_normal_witness:
  "format_docstring (Some [CHR '' '', CHR ''a'', CHR 0x0A, CHR 0x09, CHR ''b'', CHR '' '']) = ''a b''
   \<and> format_docstring (Some ''a b'') = ''a b''
   \<and> Suc 0 < length ''a b''
   \<and> \<not> (isspace (''a b'' ! 0) \<and> isspace (''a b'' ! Suc 0))
   \<and> ''a b'' \<noteq> []
   \<and> \<not> isspace (hd ''a b'') \<and> \<not> isspace (last ''a b'')"
proof -
  let ?d = "Some [CHR '' '', CHR ''a'', CHR 0x0A, CHR 0x09, CHR ''b'', CHR '' '']"
  have e: "format_docstring ?d = ''a b''"
    by (simp add: format_docstring_def strip_def isspace_def)
  from format_docstring_idempotent_normal [of ?d] show ?thesis
    unfolding e by simp
qed

section \<open>Properties of deep\_getattr\<close>

lemma getattr_bases_none:
  "\<forall>v. ne_missing v = Inr True \<Longrightarrow> \<forall>b\<in>set bases. b name = Inr None
     \<Longrightarrow> getattr_bases ne_missing bases name = Inr None"
  by (induction bases) auto

lemma getattr_bases_first:
  "\<forall>v. ne_missing v = Inr True \<Longrightarrow> i < length bases \<Longrightarrow> (bases ! i) name = Inr (Some v)
     \<Longrightarrow> \<forall>j<i. (bases ! j) name = Inr None
     \<Longrightarrow> getattr_bases ne_missing bases name = Inr (Some v)"
proof (induction bases arbitrary: i)
  case Nil
  then show ?case by simp
next
  case (Cons b bs)
  show ?case
  proof (cases i)
    case 0
    with Cons.prems show ?thesis by simp
  next
    case (Suc k)
    with Cons.prems have "b name = Inr None" by auto
    moreover from Suc Cons.prems have "getattr_bases ne_missing bs name = Inr (Some v)"
      by (intro Cons.IH [of k]) auto
    ultimately show ?thesis by simp
  qed
qed

lemma getattr_bases_found:
  "\<forall>v. ne_missing v = Inr True \<Longrightarrow> \<forall>b\<in>set bases. \<exists>r. b name = Inr r
     \<Longrightarrow> \<exists>r. getattr_bases ne_missing bases name = Inr r
           \<and> (r = None \<longleftrightarrow> (\<forall>b\<in>set bases. b name = Inr None))"
proof (induction bases)
  case Nil
  then show ?case by simp
next
  case (Cons b bs)
  from Cons.prems(2) obtain r where r: "b name = Inr r" by auto
  from Cons.prems(2) have p: "\<forall>b\<in>set bs. \<exists>r. b name = Inr r" by simp
  from Cons.IH [OF Cons.prems(1) p] obtain q where q: "getattr_bases ne_missing bs name = Inr q"
    and n: "q = None \<longleftrightarrow> (\<forall>b\<in>set bs. b name = Inr None)" by blast
  show ?case
  proof (cases r)
    case None
    with r q n show ?thesis by simp
  next
    case (Some v)
    from Cons.prems(1) have "ne_missing v = Inr True" by blast
    with r Some show ?thesis by simp
  qed
qed

text \<open>
  Where every value is unequal to the sentinel, the function does what its docstring
  says: the class dictionary first, then the first base that has the name, then the
  default, and, when no base raises, \<open>AttributeError(name)\<close> exactly when all three
  fail.
\<close>

lemma deep_getattr_values_unequal_to_sentinel:
  assumes ne: "\<forall>v. ne_missing v = Inr True"
  shows "(clsdict name = Some v \<longrightarrow>
            deep_getattr ne_missing clsdict bases name d = Inr v)
   \<and> (clsdict name = None \<and> i < length bases \<and> (bases ! i) name = Inr (Some v)
        \<and> (\<forall>j<i. (bases ! j) name = Inr None)
        \<longrightarrow> deep_getattr ne_missing clsdict bases name d = Inr v)
   \<and> (clsdict name = None \<and> (\<forall>b\<in>set bases. b name = Inr None) \<and> d = Some v
        \<longrightarrow> deep_getattr ne_missing clsdict bases name d = Inr v)
   \<and> ((\<forall>b\<in>set bases. \<exists>r. b name = Inr r) \<longrightarrow>
        (deep_getattr ne_missing clsdict bases name d = Inl (AttributeError name)
          \<longleftrightarrow> clsdict name = None \<and> (\<forall>b\<in>set bases. b name = Inr None) \<and> d = None))"
proof (intro conjI impI)
  assume "clsdict name = Some v"
  with ne show "deep_getattr ne_missing clsdict bases name d = Inr v"
    by (simp add: deep_getattr_def)
next
  assume a: "clsdict name = None \<and> i < length bases \<and> (bases ! i) name = Inr (Some v)
        \<and> (\<forall>j<i. (bases ! j) name = Inr None)"
  with ne have "getattr_bases ne_missing bases name = Inr (Some v)"
    using getattr_bases_first [of ne_missing i bases name v] by blast
  with a show "deep_getattr ne_missing clsdict bases name d = Inr v"
    by (simp add: deep_getattr_def)
next
  assume a: "clsdict name = None \<and> (\<forall>b\<in>set bases. b name = Inr None) \<and> d = Some v"
  with ne have "getattr_bases ne_missing bases name = Inr None"
    using getattr_bases_none [of ne_missing bases name] by blast
  with a ne show "deep_getattr ne_missing clsdict bases name d = Inr v"
    by (simp add: deep_getattr_def)
next
  assume "\<forall>b\<in>set bases. \<exists>r. b name = Inr r"
  with ne obtain r where r: "getattr_bases ne_missing bases name = Inr r"
    and n: "r = None \<longleftrightarrow> (\<forall>b\<in>set bases. b name = Inr None)"
    using getattr_bases_found [of ne_missing bases name] by blast
  have t: "ne_missing x = Inr True" for x using ne by simp
  show "deep_getattr ne_missing clsdict bases name d = Inl (AttributeError name)
        \<longleftrightarrow> clsdict name = None \<and> (\<forall>b\<in>set bases. b name = Inr None) \<and> d = None"
    unfolding n [symmetric]
    by (cases "clsdict name"; cases r; cases d) (simp_all add: deep_getattr_def r t)
qed

text \<open>
  C9. \<open>deep_getattr(clsdict, bases, name, default)\<close> is to return \<open>clsdict[name]\<close> when
  the name is in the class dictionary, otherwise the value from the first base that has
  it, otherwise the default when one was supplied, and to raise \<open>AttributeError(name)\<close>
  exactly when none of the three exists. The code tests \<open>value != _missing\<close> instead of
  presence, and does not do this for a value that reports itself equal to the sentinel:
  with \<open>unittest.mock.ANY\<close> bound to \<open>x\<close> in the class dictionary it raises
  \<open>AttributeError('x')\<close>, or returns what a base has for \<open>x\<close>; and with \<open>ANY\<close>
  supplied as the default it raises as if no default had been given.
\<close>

theorem deep_getattr_passes_over_equal_to_sentinel:
  "deep_getattr sample_ne_missing [''x'' \<mapsto> MockANY] [] ''x'' None
     = Inl (AttributeError ''x'')
   \<and> deep_getattr sample_ne_missing [''x'' \<mapsto> MockANY] [as_base [''x'' \<mapsto> Plain 1]] ''x'' None
     = Inr (Plain 1)
   \<and> deep_getattr sample_ne_missing Map.empty [] ''x'' (Some MockANY)
     = Inl (AttributeError ''x'')"
  by (simp add: deep_getattr_def as_base_def)

section \<open>Properties of the database commands\<close>

lemmas command_steps =
  click_echo_def drop_all_def db_ext_drop_all_def db_ext_engine_execute_def
  migrate_get_config_def alembic_upgrade_to_def

text \<open>
  C2. When the confirmation flag is false, \<open>drop\<close> and \<open>reset\<close> exit with the message
  \<open>Cancelled.\<close> before any other step: nothing is echoed, neither \<open>drop_all\<close> nor a
  migration runs, and the database is as it was.
\<close>

theorem cancelled_command_changes_nothing:
  "drop_command api False w = (Inl (SystemExit ''Cancelled.''), w)
   \<and> reset_command api False w = (Inl (SystemExit ''Cancelled.''), w)
   \<and> database (snd (drop_command api False w)) = database w
   \<and> events (snd (drop_command api False w)) = events w
   \<and> database (snd (reset_command api False w)) = database w
   \<and> events (snd (reset_command api False w)) = events w"
  by (simp add: drop_command_def reset_command_def)

text \<open>
  C3. A confirmed \<open>reset\<close> returns normally, and the steps it performs on the database
  are exactly, in this order: drop all tables, execute
  \<open>DROP TABLE IF EXISTS alembic_version;\<close>, upgrade to revision \<open>head\<close>. The full list of
  calls, with the messages echoed in between, and the resulting database are given too.
\<close>

theorem reset_command_steps:
  "fst (reset_command api True w) = Inr ()
   \<and> events (snd (reset_command api True w)) =
       events w @
       [Echo ''Dropping DB tables.'',
        DropAll,
        Execute ''DROP TABLE IF EXISTS alembic_version;'',
        Echo ''Running DB migrations.'',
        GetConfig None,
        Upgrade ''head'',
        Echo ''Done.'']
   \<and> filter database_step (drop (length (events w)) (events (snd (reset_command api True w)))) =
       [DropAll, Execute ''DROP TABLE IF EXISTS alembic_version;'', Upgrade ''head'']
   \<and> database (snd (reset_command api True w)) =
       alembic_upgrade api ''head''
         (engine_execute api ''DROP TABLE IF EXISTS alembic_version;''
           (drop_all_tables api (database w)))"
proof -
  have ev: "events (snd (reset_command api True w)) =
       events w @
       [Echo ''Dropping DB tables.'',
        DropAll,
        Execute ''DROP TABLE IF EXISTS alembic_version;'',
        Echo ''Running DB migrations.'',
        GetConfig None,
        Upgrade ''head'',
        Echo ''Done.'']"
    by (simp add: reset_command_def command_steps)
  have db: "database (snd (reset_command api True w)) =
       alembic_upgrade api ''head''
         (engine_execute api ''DROP TABLE IF EXISTS alembic_version;''
           (drop_all_tables api (database w)))"
    by (simp add: reset_command_def command_steps)
  have "fst (reset_command api True w) = Inr ()"
    by (simp add: reset_command_def)
  with ev db show ?thesis by simp
qed

section \<open>Properties of ModelManager\<close>

text \<open>
  C1. \<open>ModelManager.get(id)\<close> is exactly \<open>query.get(id)\<close> on the query object of the
  manager's model, and \<open>ModelManager.find_by(**kwargs)\<close> is exactly
  \<open>query.filter_by(**kwargs).all()\<close>: same result (an instance or \<open>None\<close>, a list of
  instances) and same effect on the session.
\<close>

theorem get_and_find_by_delegate:
  "ModelManager_get orm self ident w = query_get orm (model_query orm (model self)) ident w
   \<and> ModelManager_find_by orm self kwargs w =
       query_all orm (query_filter_by orm (model_query orm (model self)) kwargs) w
   \<and> ModelManager_q orm self = ModelManager_query orm self"
  by (simp add: ModelManager_get_def ModelManager_find_by_def ModelManager_q_def
      ModelManager_query_def)





text \<open>
  C8. \<open>get_or_create(commit, **kwargs)\<close> returns \<open>(instance, created)\<close> where \<open>created\<close>
  is true exactly when \<open>get_by(**kwargs)\<close> returned a false value: \<open>None\<close>, or an
  instance whose truth value is false. When \<open>created\<close> is true the instance is a new
  model built from \<open>kwargs\<close> and saved; when it is false the instance is the one
  \<open>get_by\<close> found and nothing else happened.
\<close>

theorem get_or_create_created_iff_falsy:
  assumes "ModelManager_get_by orm self kwargs w = (found, w1)"
    and "ModelManager_get_or_create orm self commit kwargs w = ((instance, created), w')"
  shows "(created \<longleftrightarrow> (found = None \<or> (\<exists>i. found = Some i \<and> \<not> instance_truthy orm i w1)))
    \<and> (created \<longrightarrow>
          (\<exists>w2. model_new orm (model self) kwargs w1 = (instance, w2)
                \<and> w' = save orm instance commit w2))
    \<and> (\<not> created \<longrightarrow> found = Some instance \<and> instance_truthy orm instance w1 \<and> w' = w1)"
proof (cases "case found of None \<Rightarrow> True | Some i \<Rightarrow> \<not> instance_truthy orm i w1")
  case True
  obtain i w2 where n: "model_new orm (model self) kwargs w1 = (i, w2)"
    by (cases "model_new orm (model self) kwargs w1")
  with True assms have a: "instance = i" and b: "created" and c: "w' = save orm i commit w2"
    by (auto simp: ModelManager_get_or_create_def ModelManager_create_def)
  from True have "found = None \<or> (\<exists>j. found = Some j \<and> \<not> instance_truthy orm j w1)"
    by (cases found) simp_all
  with n b show ?thesis unfolding a c by simp
next
  case False
  with assms have a: "instance = the found" and b: "\<not> created" and c: "w' = w1"
    by (auto simp: ModelManager_get_or_create_def)
  from False have "found = Some (the found) \<and> instance_truthy orm (the found) w1"
    by (cases found) simp_all
  with b show ?thesis unfolding a c by auto
qed

theorem get_or_create_created_iff_falsy_witness:
  "ModelManager_get_by demo_orm \<lparr>model = ''User''\<rparr> [(''name'', Str ''a'')] demo_world
     = (Some 0, demo_world)
   \<and> \<not> instance_truthy demo_orm 0 demo_world
   \<and> fst (ModelManager_get_or_create demo_orm \<lparr>model = ''User''\<rparr> True [(''name'', Str ''a'')] demo_world)
     = (1, True)
   \<and> session (snd (ModelManager_get_or_create demo_orm \<lparr>model = ''User''\<rparr> True
                     [(''name'', Str ''a'')] demo_world)) = [1]"
proof -
  let ?m = "\<lparr>model = ''User''\<rparr>"
  let ?kw = "[(''name'', Str ''a'')]"
  let ?g = "ModelManager_get_or_create demo_orm ?m True ?kw demo_world"
  have f: "ModelManager_get_by demo_orm ?m ?kw demo_world = (Some 0, demo_world)"
    by (simp add: ModelManager_get_by_def demo_orm_def)
  have nt: "\<not> instance_truthy demo_orm 0 demo_world"
    by (simp add: demo_orm_def)
  obtain i c w' where g: "?g = ((i, c), w')" by (cases ?g) auto
  note t = get_or_create_created_iff_falsy [OF f g]
  from t nt have c: "c" by blast
  with t obtain w2 where n: "model_new demo_orm (model ?m) ?kw demo_world = (i, w2)"
    and w': "w' = save demo_orm i True w2" by blast
  from n have i: "i = 1" and w2: "w2 = demo_world\<lparr>heap := (heap demo_world)(1 := map_of ?kw)\<rparr>"
    by (auto simp: demo_orm_def)
  have "session w' = [1]"
    unfolding w' w2 i by (simp add: demo_orm_def demo_world_def)
  with f nt g c i show ?thesis by simp
qed

section \<open>Properties of ConfigPropertyMeta\<close>

lemma inject_keys_key:
  assumes "\<forall>s. s \<noteq> [] \<longrightarrow> str_upper s \<noteq> []"
  shows "key (inject_keys str_upper p items h r) =
     (case first_name r items of
        None \<Rightarrow> key (h r)
      | Some n \<Rightarrow>
          if key_truthy (key (h r)) then key (h r) else Some (str_upper (p @ ''_'' @ n)))"
proof (induction items arbitrary: h)
  case Nil
  then show ?case by simp
next
  case (Cons item items)
  obtain n d where item: "item = (n, d)" by (cases item)
  from assms have t: "key_truthy (Some (str_upper (p @ ''_'' @ n)))" by simp
  show ?case
  proof (cases "d = ConfigPropertyRef r")
    case True
    show ?thesis
    proof (cases "key_truthy (key (h r))")
      case t: True
      with True item show ?thesis
        by (simp add: Cons.IH split: option.splits)
    next
      case f: False
      with True item t show ?thesis
        by (simp add: Cons.IH split: option.splits del: key_truthy.simps)
    qed
  next
    case False
    with item show ?thesis
      by (cases d) (simp_all add: Cons.IH split: option.splits)
  qed
qed

lemma rstrip_underscores_decomp:
  "\<exists>k. p = rstrip_underscores p @ replicate k CHR ''_''"
proof -
  let ?P = "\<lambda>c. c = CHR ''_''"
  have "rev p = takeWhile ?P (rev p) @ dropWhile ?P (rev p)" by simp
  then have "p = rev (dropWhile ?P (rev p)) @ rev (takeWhile ?P (rev p))"
    by (metis rev_append rev_rev_ident)
  moreover have "rev (takeWhile ?P (rev p)) = replicate (length (takeWhile ?P (rev p))) CHR ''_''"
  proof -
    have "\<forall>c\<in>set (rev (takeWhile ?P (rev p))). c = CHR ''_''"
      using set_takeWhileD [of _ ?P "rev p"] by auto
    then show ?thesis
      by (metis length_rev replicate_eqI)
  qed
  ultimately show ?thesis unfolding rstrip_underscores_def by metis
qed

lemma rstrip_underscores_last:
  "rstrip_underscores p \<noteq> [] \<Longrightarrow> last (rstrip_underscores p) \<noteq> CHR ''_''"
proof -
  let ?r = "dropWhile (\<lambda>c. c = CHR ''_'') (rev p)"
  assume "rstrip_underscores p \<noteq> []"
  then have ne: "?r \<noteq> []" by (simp add: rstrip_underscores_def)
  then have "hd ?r \<noteq> CHR ''_''" using hd_dropWhile [of "\<lambda>c. c = CHR ''_''" "rev p"] by simp
  moreover have "last (rstrip_underscores p) = hd ?r"
    using ne by (simp add: rstrip_underscores_def last_rev)
  ultimately show ?thesis by simp
qed

lemma ascii_upper_eq_Nil: "ascii_upper s = [] \<longleftrightarrow> s = []"
  by (simp add: ascii_upper_def)

text \<open>
  C5, as the code has it. When \<open>__config_prefix__\<close> is absent or bound to a string,
  constructing the class succeeds and changes descriptors as follows, where the prefix is
  \<open>__config_prefix__\<close> (or the class name) without its trailing underscores. A
  \<open>ConfigProperty\<close> object bound in the class dictionary whose key is false (\<open>None\<close> or
  the empty string) gets the key \<open>f'{prefix}_{property_name}'.upper()\<close>, for the first
  name the dictionary binds to it; one whose key is a non-empty string keeps it; objects
  the dictionary does not bind are untouched. This holds for \<open>str.upper\<close> as Python has
  it, on every string: all that is used of it is that it turns no non-empty string into
  the empty one.
\<close>

theorem config_keys_injected:
  assumes "(case map_of clsdict ''__config_prefix__'' of
              None \<Rightarrow> Str class_name
            | Some v \<Rightarrow> v) = Str p"
    and "\<forall>s. s \<noteq> [] \<longrightarrow> str_upper s \<noteq> []"
  shows "\<exists>h'. ConfigPropertyMeta_init str_upper class_name clsdict h = Inr h'
    \<and> (\<forall>r. key (h' r) =
          (case first_name r clsdict of
             None \<Rightarrow> key (h r)
           | Some n \<Rightarrow>
               if key_truthy (key (h r)) then key (h r)
               else Some (str_upper (rstrip_underscores p @ ''_'' @ n))))
    \<and> (\<exists>k. p = rstrip_underscores p @ replicate k CHR ''_'')
    \<and> (rstrip_underscores p = [] \<or> last (rstrip_underscores p) \<noteq> CHR ''_'')"
proof -
  from assms(1) have "ConfigPropertyMeta_init str_upper class_name clsdict h =
      Inr (inject_keys str_upper (rstrip_underscores p) clsdict h)"
    by (simp add: ConfigPropertyMeta_init_def)
  moreover have "\<forall>r. key (inject_keys str_upper (rstrip_underscores p) clsdict h r) =
          (case first_name r clsdict of
             None \<Rightarrow> key (h r)
           | Some n \<Rightarrow>
               if key_truthy (key (h r)) then key (h r)
               else Some (str_upper (rstrip_underscores p @ ''_'' @ n)))"
    using inject_keys_key [OF assms(2)] by blast
  ultimately show ?thesis
    using rstrip_underscores_decomp [of p] rstrip_underscores_last [of p] by blast
qed

theorem config_keys_injected_witness:
  "(case map_of [(''__config_prefix__'', Str ''MY_EXTENSION__''),
                 (''foobar'', ConfigPropertyRef 0),
                 (''_custom'', ConfigPropertyRef 1)] ''__config_prefix__'' of
      None \<Rightarrow> Str ''MyExtension''
    | Some v \<Rightarrow> v) = Str ''MY_EXTENSION__''
   \<and> (\<exists>h'. ConfigPropertyMeta_init ascii_upper ''MyExtension''
              [(''__config_prefix__'', Str ''MY_EXTENSION__''),
               (''foobar'', ConfigPropertyRef 0),
               (''_custom'', ConfigPropertyRef 1)]
              (unset_descriptors(1 := \<lparr>key = Some ''MY_EXTENSION_CUSTOM''\<rparr>)) = Inr h'
          \<and> key (h' 0) = Some ''MY_EXTENSION_FOOBAR''
          \<and> key (h' 1) = Some ''MY_EXTENSION_CUSTOM''
          \<and> key (h' 2) = None)"
proof -
  let ?d = "[(''__config_prefix__'', Str ''MY_EXTENSION__''),
             (''foobar'', ConfigPropertyRef 0),
             (''_custom'', ConfigPropertyRef 1)]"
  let ?h = "unset_descriptors(1 := \<lparr>key = Some ''MY_EXTENSION_CUSTOM''\<rparr>)"
  have p: "(case map_of ?d ''__config_prefix__'' of
              None \<Rightarrow> Str ''MyExtension'' | Some v \<Rightarrow> v) = Str ''MY_EXTENSION__''"
    by simp
  have u: "\<forall>s. s \<noteq> [] \<longrightarrow> ascii_upper s \<noteq> []"
    by (simp add: ascii_upper_eq_Nil)
  from config_keys_injected [OF p u, of ?h]
  obtain h' where i: "ConfigPropertyMeta_init ascii_upper ''MyExtension'' ?d ?h = Inr h'"
    and k: "\<And>r. key (h' r) =
          (case first_name r ?d of
             None \<Rightarrow> key (?h r)
           | Some n \<Rightarrow>
               if key_truthy (key (?h r)) then key (?h r)
               else Some (ascii_upper (rstrip_underscores ''MY_EXTENSION__'' @ ''_'' @ n)))"
    by blast
  have "key (h' 0) = Some ''MY_EXTENSION_FOOBAR''"
    unfolding k
    by (simp add: unset_descriptors_def rstrip_underscores_def ascii_upper_def
        ascii_upper_char_def)
  moreover have "key (h' 1) = Some ''MY_EXTENSION_CUSTOM''"
    unfolding k by (simp add: unset_descriptors_def)
  moreover have "key (h' 2) = None"
    unfolding k by (simp add: unset_descriptors_def)
  ultimately show ?thesis using p i by blast
qed

text \<open>
  The claim as written fails for a \<open>ConfigProperty('')\<close>: its key was given explicitly,
  and the metaclass replaces it. The names are ASCII, where \<open>str.upper\<close> is
  \<open>ascii_upper\<close>.
\<close>

theorem explicit_empty_key_is_replaced:
  "key ((unset_descriptors(0 := \<lparr>key = Some ''''\<rparr>)) 0) = Some ''''
   \<and> ConfigPropertyMeta_init ascii_upper ''Ext'' [(''foo'', ConfigPropertyRef 0)]
        (unset_descriptors(0 := \<lparr>key = Some ''''\<rparr>))
      = Inr (unset_descriptors(0 := \<lparr>key = Some ''EXT_FOO''\<rparr>))"
  by (simp add: ConfigPropertyMeta_init_def rstrip_underscores_def ascii_upper_def
      ascii_upper_char_def)

section \<open>Properties of OptionalMetaclass\<close>

text \<open>
  C6, as the code has it. The first class created becomes the stand-in. From then on
  attribute access for a name that the ordinary lookup does not find, subscripting the
  class and calling the class all return that one object and leave the state as it is,
  and so does \<open>__new__\<close>; attribute assignment and item assignment change nothing.
\<close>

theorem optional_class_single_stand_in:
  "(optional_class s = None \<longrightarrow>
      fst (OptionalMetaclass_new name bases clsdict s) = ClassRef (length (classes s))
      \<and> optional_class (snd (OptionalMetaclass_new name bases clsdict s))
          = Some (length (classes s)))
   \<and> (optional_class s = Some c \<longrightarrow>
      OptionalMetaclass_new name bases clsdict s = (ClassRef c, s)
      \<and> OptionalMetaclass_call self args kwargs s = (ClassRef c, s)
      \<and> OptionalMetaclass_getitem self item s = (ClassRef c, s)
      \<and> OptionalMetaclass_getattr self attr s = (ClassRef c, s)
      \<and> class_attribute None self attr s = (ClassRef c, s)
      \<and> snd (OptionalMetaclass_setattr self attr v s) = s
      \<and> snd (OptionalMetaclass_setitem self item v s) = s)"
  by (simp add: OptionalMetaclass_new_def OptionalMetaclass_call_def
      OptionalMetaclass_getitem_def OptionalMetaclass_getattr_def
      OptionalMetaclass_setattr_def OptionalMetaclass_setitem_def
      class_attribute_def read_optional_class_def Let_def)

theorem optional_class_single_stand_in_witness:
  "optional_class \<lparr>optional_class = None, classes = []\<rparr> = None
   \<and> fst (OptionalMetaclass_new ''OptionalClass'' [] OptionalClass_clsdict
            \<lparr>optional_class = None, classes = []\<rparr>) = ClassRef 0
   \<and> optional_class utils_imported = Some 0
   \<and> class_attribute None 0 ''ModelSerializer'' utils_imported = (ClassRef 0, utils_imported)
   \<and> OptionalMetaclass_new ''MySerializer'' [ClassRef 0] [] utils_imported
        = (ClassRef 0, utils_imported)
   \<and> OptionalMetaclass_call 0 [] [] utils_imported = (ClassRef 0, utils_imported)
   \<and> OptionalMetaclass_getitem 0 (Str ''k'') utils_imported = (ClassRef 0, utils_imported)
   \<and> snd (OptionalMetaclass_setattr 0 ''x'' PyNone utils_imported) = utils_imported
   \<and> snd (OptionalMetaclass_setitem 0 (Str ''k'') PyNone utils_imported) = utils_imported"
proof -
  have s: "optional_class utils_imported = Some 0"
    by (simp add: utils_imported_def OptionalMetaclass_new_def Let_def)
  let ?s0 = "\<lparr>optional_class = None, classes = []\<rparr>"
  have n: "optional_class ?s0 = None" by simp
  with optional_class_single_stand_in [of ?s0 "''OptionalClass''" "[]" OptionalClass_clsdict]
  have "fst (OptionalMetaclass_new ''OptionalClass'' [] OptionalClass_clsdict ?s0)
          = ClassRef (length (classes ?s0))"
    by blast
  then have f: "fst (OptionalMetaclass_new ''OptionalClass'' [] OptionalClass_clsdict ?s0)
          = ClassRef 0"
    by simp
  from s n f
    optional_class_single_stand_in [of utils_imported "''MySerializer''" "[ClassRef 0]" "[]"
      0 0 "[]" "[]" "Str ''k''" "''ModelSerializer''" PyNone]
    optional_class_single_stand_in [of utils_imported "''MySerializer''" "[ClassRef 0]" "[]"
      0 0 "[]" "[]" "Str ''k''" "''x''" PyNone]
  show ?thesis by blast
qed

text \<open>
  The claim as written fails for attribute access: \<open>OptionalClass.__init__\<close> is found by
  the ordinary lookup, in the dictionary of the class, and is the function defined in
  \<open>utils.py\<close>, not the stand-in class.
\<close>

theorem defined_attribute_is_not_the_stand_in:
  "optional_class utils_imported = Some 0
   \<and> map_of (cls_dict (classes utils_imported ! 0)) ''__init__''
        = Some (Function ''OptionalClass.__init__'')
   \<and> fst (class_attribute (Some (Function ''OptionalClass.__init__'')) 0 ''__init__''
             utils_imported) = Function ''OptionalClass.__init__''
   \<and> fst (class_attribute (Some (Function ''OptionalClass.__init__'')) 0 ''__init__''
             utils_imported) \<noteq> ClassRef 0"
  by (simp add: utils_imported_def OptionalMetaclass_new_def Let_def OptionalClass_clsdict_def
      class_attribute_def)

section \<open>Properties of the hook pipeline\<close>





end
